theory Spec2Isabelle
  imports Main "HOL-Library.Word"
begin

section \<open>Strings of the host language\<close>

text \<open>
  A string of the program is a sequence of UTF-16 code units; \<open>length\<close> counts code
  units, as \<^verbatim>\<open>.length\<close> does, and a "character" of the program (the result of
  \<^verbatim>\<open>val.slice(-1)\<close>, the argument of \<^verbatim>\<open>commitChar\<close>) is one code unit.
\<close>

type_synonym code_unit = "16 word"
type_synonym jsstring = "code_unit list"

text \<open>
  \<^verbatim>\<open>s.slice(start, end)\<close>: a negative index counts from the end, both indices are
  clamped to the string, and an absent \<^verbatim>\<open>end\<close> is the length.
\<close>

definition slice_js :: "'a list \<Rightarrow> int \<Rightarrow> int option \<Rightarrow> 'a list" where
  "slice_js s start end =
     (let len = int (length s);
          from = (if start < 0 then max (len + start) 0 else min start len);
          e = (case end of None \<Rightarrow> len | Some e \<Rightarrow> e);
          to = (if e < 0 then max (len + e) 0 else min e len)
      in take (nat (max (to - from) 0)) (drop (nat from) s))"

text \<open>\<^verbatim>\<open>String.fromCharCode(code)\<close>: the code is taken modulo \<open>2 ^ 16\<close>.\<close>

definition fromCharCode :: "int \<Rightarrow> jsstring" where
  "fromCharCode code = [word_of_int code]"

text \<open>The numbers and the \<^verbatim>\<open>null\<close> that travel with a message.\<close>

datatype payload = Number int | NaN | Null

text \<open>\<^verbatim>\<open>s.charCodeAt(0)\<close>: \<^verbatim>\<open>NaN\<close> on the empty string.\<close>

definition charCodeAt0 :: "jsstring \<Rightarrow> payload" where
  "charCodeAt0 s = (case s of [] \<Rightarrow> NaN | c # _ \<Rightarrow> Number (uint c))"

definition newline :: code_unit where
  "newline = 10"

text \<open>
  \<^verbatim>\<open>s.split(sep)\<close> for a separator of one code unit: the pieces between the
  occurrences of the separator, in order.
\<close>

function split :: "'a \<Rightarrow> 'a list \<Rightarrow> 'a list list" where
  "split sep s =
     (case dropWhile (\<lambda>c. c \<noteq> sep) s of
        [] \<Rightarrow> [s]
      | _ # rest \<Rightarrow> takeWhile (\<lambda>c. c \<noteq> sep) s # split sep rest)"
  by pat_completeness auto
termination
proof (relation "measure (\<lambda>(sep, s). length s)")
  show "wf (measure (\<lambda>(sep, s). length s))" by simp
next
  fix sep :: 'a and s :: "'a list" and x21 x22
  assume "dropWhile (\<lambda>c. c \<noteq> sep) s = x21 # x22"
  then have "length x22 < length (dropWhile (\<lambda>c. c \<noteq> sep) s)" by simp
  also have "\<dots> \<le> length s" by (rule length_dropWhile_le)
  finally show "((sep, x22), (sep, s)) \<in> measure (\<lambda>(sep, s). length s)" by simp
qed

declare split.simps [simp del]

section \<open>The form model and its view\<close>

datatype message = MsgAppend | MsgBackspace

text \<open>An element of the document: its local name (\<^verbatim>\<open>span\<close>, \<^verbatim>\<open>textarea\<close>) and its child elements.\<close>

datatype element = Element (localName: string) (children: "element list")

text \<open>
  The state of one post form: the fields of \<^verbatim>\<open>FormModel\<close> (\<open>line\<close> is
  \<^verbatim>\<open>state.line\<close>), the value of the view's \<^verbatim>\<open>$input\<close>, the messages handed to
  \<^verbatim>\<open>send\<close> (oldest first) and the DOM updates that \<^verbatim>\<open>terminateLine\<close> has
  scheduled through \<^verbatim>\<open>read\<close> and \<^verbatim>\<open>write\<close> (oldest first), each with the number of its line and
  the fragment to put in.
\<close>

record form =
  body :: jsstring
  line :: jsstring
  bodyLength :: int
  parsedLines :: int
  input_value :: jsstring
  sent :: "(message \<times> payload) list"
  scheduled :: "(int \<times> element list) list"

text \<open>\<^verbatim>\<open>lastBodyLine\<close>: \<open>None\<close> stands for \<^verbatim>\<open>undefined\<close>, the value of an index out of range.\<close>

definition lastBodyLine :: "form \<Rightarrow> jsstring option" where
  "lastBodyLine m =
     (let lines = split newline (body m)
      in if lines = [] then None else Some (lines ! (length lines - 1)))"

text \<open>\<^verbatim>\<open>FormView.trimInput\<close>\<close>

definition trimInput :: "form \<Rightarrow> int \<Rightarrow> form" where
  "trimInput m len = m\<lparr>input_value := slice_js (input_value m) 0 (Some (- len))\<rparr>"

text \<open>\<^verbatim>\<open>FormModel.commitChar\<close> and \<^verbatim>\<open>FormModel.commitBackspace\<close>\<close>

definition commitChar :: "form \<Rightarrow> jsstring \<Rightarrow> form" where
  "commitChar m char =
     m\<lparr>line := line m @ char,
       bodyLength := bodyLength m + 1,
       sent := sent m @ [(MsgAppend, charCodeAt0 char)]\<rparr>"

definition commitBackspace :: "form \<Rightarrow> form" where
  "commitBackspace m =
     m\<lparr>line := slice_js (line m) 0 (Some (- 1)),
       bodyLength := bodyLength m - 1,
       sent := sent m @ [(MsgBackspace, Null)]\<rparr>"

text \<open>
  \<^verbatim>\<open>FormModel.parseInput\<close>. \<open>exceeding\<close> is the excess over the 2000 characters
  computed at its head, \<open>classify\<close> the two tests that follow the overflow
  guard. The function calls itself on the shortened value; a call that never returns has
  the value \<open>None\<close>.
\<close>

definition lenDiff :: "form \<Rightarrow> jsstring \<Rightarrow> int" where
  "lenDiff m val = int (length val) - int (length (line m))"

definition exceeding :: "form \<Rightarrow> jsstring \<Rightarrow> int" where
  "exceeding m val = bodyLength m + lenDiff m val - 2000"

definition classify :: "form \<Rightarrow> jsstring \<Rightarrow> form" where
  "classify m val =
     (if lenDiff m val = 1 \<and> slice_js val 0 (Some (- 1)) = line m
      then commitChar m (slice_js val (- 1) None)
      else if lenDiff m val = - 1 \<and> slice_js (line m) 0 (Some (- 1)) = val
      then commitBackspace m
      else m)"

partial_function (option) parseInput :: "form \<Rightarrow> jsstring \<Rightarrow> form option" where
  "parseInput m val =
     (if exceeding m val > 0
      then parseInput (trimInput m (exceeding m val)) (slice_js val 0 (Some (- exceeding m val)))
      else Some (classify m val))"

text \<open>
  The same function with a bound on the depth of its recursion: \<open>parseInput_bounded n\<close>
  allows \<open>n\<close> nested calls and is \<open>None\<close> where \<^verbatim>\<open>parseInput\<close> would make one more.
\<close>

fun parseInput_bounded :: "nat \<Rightarrow> form \<Rightarrow> jsstring \<Rightarrow> form option" where
  "parseInput_bounded 0 m val =
     (if exceeding m val > 0 then None else Some (classify m val))"
| "parseInput_bounded (Suc n) m val =
     (if exceeding m val > 0
      then parseInput_bounded n (trimInput m (exceeding m val))
             (slice_js val 0 (Some (- exceeding m val)))
      else Some (classify m val))"


section \<open>Remote updates and line termination\<close>

text \<open>
  The functions of other modules that the form calls and that are not part of the source
  at hand, taken as parameters: \<^verbatim>\<open>parseTerminatedLine\<close> of the renderer (line and model to
  HTML), \<^verbatim>\<open>makeFrag\<close> (HTML to the elements of a fragment), and the method \<^verbatim>\<open>spliceLine\<close>
  that the mixin only declares (it runs on the model and returns a string).
\<close>

record 'msg collaborators =
  parseTerminatedLine :: "jsstring option \<Rightarrow> form \<Rightarrow> jsstring"
  makeFrag :: "jsstring \<Rightarrow> element list"
  spliceLine :: "form \<Rightarrow> jsstring option \<Rightarrow> 'msg \<Rightarrow> form \<times> jsstring"

text \<open>
  \<^verbatim>\<open>FormView.terminateLine\<close>: the line is parsed at once; the lookup of the placeholder
  and its replacement are handed to \<^verbatim>\<open>read\<close> and \<^verbatim>\<open>write\<close> and run later.
\<close>

definition terminateLine :: "'msg collaborators \<Rightarrow> form \<Rightarrow> int \<Rightarrow> form" where
  "terminateLine env m num =
     (let html = parseTerminatedLine env (lastBodyLine m) m;
          frag = makeFrag env html
      in m\<lparr>scheduled := scheduled m @ [(num, frag)]\<rparr>)"

text \<open>
  \<^verbatim>\<open>FormModel.append\<close>: \<^verbatim>\<open>this.parsedLines++\<close> passes the value before the increment and
  the counter is already incremented when \<^verbatim>\<open>terminateLine\<close> runs; the character joins the
  body after that.
\<close>

definition append_code :: "'msg collaborators \<Rightarrow> form \<Rightarrow> int \<Rightarrow> form" where
  "append_code env m code =
     (let char = fromCharCode code;
          m1 = (if char = [newline]
                then terminateLine env (m\<lparr>parsedLines := parsedLines m + 1\<rparr>) (parsedLines m)
                else m)
      in m1\<lparr>body := body m1 @ char\<rparr>)"

text \<open>\<^verbatim>\<open>FormModel.backspace\<close> and \<^verbatim>\<open>FormModel.splice\<close>\<close>

definition backspace :: "form \<Rightarrow> form" where
  "backspace m = m\<lparr>body := slice_js (body m) 0 (Some (- 1))\<rparr>"

definition splice_msg :: "'msg collaborators \<Rightarrow> form \<Rightarrow> 'msg \<Rightarrow> form" where
  "splice_msg env m msg = fst (spliceLine env m (lastBodyLine m) msg)"

text \<open>
  The lookup \<^verbatim>\<open>querySelector(`span:nth-child(${num})`)\<close> among the descendants of an
  element, in document order: the first \<^verbatim>\<open>span\<close> that is the \<open>num\<close>-th child of its
  parent, children counted from one as the selector does. The result is the path of
  child positions (from zero) to the element, \<open>None\<close> for \<^verbatim>\<open>null\<close>. \<open>i\<close> is the position
  of the head of the list among its siblings.
\<close>

fun query_span_nth_child :: "int \<Rightarrow> nat \<Rightarrow> element list \<Rightarrow> nat list option" where
  "query_span_nth_child num i [] = None"
| "query_span_nth_child num i (Element tag kids # rest) =
     (if tag = ''span'' \<and> int (Suc i) = num then Some [i]
      else (case query_span_nth_child num 0 kids of
              Some p \<Rightarrow> Some (i # p)
            | None \<Rightarrow> query_span_nth_child num (Suc i) rest))"

text \<open>\<^verbatim>\<open>el.replaceWith(frag)\<close> for the element at a path: the elements of the fragment take its place.\<close>

fun replaceWith :: "nat list \<Rightarrow> element list \<Rightarrow> element list \<Rightarrow> element list" where
  "replaceWith [] frag es = es"
| "replaceWith [i] frag es = take i es @ frag @ drop (Suc i) es"
| "replaceWith (i # j # p) frag es =
     (if i < length es
      then es[i := Element (localName (es ! i)) (replaceWith (j # p) frag (children (es ! i)))]
      else es)"

datatype error = TypeError

text \<open>
  Modelled from the spec: \<^verbatim>\<open>read\<close> and \<^verbatim>\<open>write\<close> of the render module are not in the
  source; by section 9 they run the read callback and then the write callback at a later
  tick. \<open>run_scheduled\<close> is what the two callbacks of \<^verbatim>\<open>terminateLine\<close> do to the
  blockquote they find at that time: \<^verbatim>\<open>el.replaceWith\<close> on \<^verbatim>\<open>null\<close> is a \<^verbatim>\<open>TypeError\<close>.
\<close>

definition run_scheduled :: "element \<Rightarrow> int \<times> element list \<Rightarrow> error + element" where
  "run_scheduled blockquote job =
     (case job of (num, frag) \<Rightarrow>
        (case query_span_nth_child num 0 (children blockquote) of
           None \<Rightarrow> Inl TypeError
         | Some p \<Rightarrow>
             Inr (Element (localName blockquote) (replaceWith p frag (children blockquote)))))"

text \<open>The operations of the engine, and a run of them; \<open>None\<close> when a call does not return.\<close>

datatype 'msg operation =
  Append int | Backspace | Splice 'msg | ParseInput jsstring | CommitChar jsstring | CommitBackspace

fun apply_operation :: "'msg collaborators \<Rightarrow> form \<Rightarrow> 'msg operation \<Rightarrow> form option" where
  "apply_operation env m (Append code) = Some (append_code env m code)"
| "apply_operation env m Backspace = Some (backspace m)"
| "apply_operation env m (Splice msg) = Some (splice_msg env m msg)"
| "apply_operation env m (ParseInput val) = parseInput m val"
| "apply_operation env m (CommitChar char) = Some (commitChar m char)"
| "apply_operation env m CommitBackspace = Some (commitBackspace m)"

fun run_operations :: "'msg collaborators \<Rightarrow> form \<Rightarrow> 'msg operation list \<Rightarrow> form option" where
  "run_operations env m [] = Some m"
| "run_operations env m (op # ops) =
     (case apply_operation env m op of
        None \<Rightarrow> None
      | Some m' \<Rightarrow> run_operations env m' ops)"

fun terminates_line :: "'msg operation \<Rightarrow> bool" where
  "terminates_line (Append code) = (fromCharCode code = [newline])"
| "terminates_line _ = False"

section \<open>From a displayed post to a form\<close>

text \<open>
  Values and objects of the host language, as far as the constructor of \<^verbatim>\<open>OPFormModel\<close>
  needs them: an object is the map of its enumerable properties, objects live in a heap
  and are passed by reference.
\<close>

datatype jsval =
  VUndefined | VNull | VBool bool | VNumber int | VString string | VObject nat | VFunction nat

fun typeof :: "jsval \<Rightarrow> string" where
  "typeof VUndefined = ''undefined''"
| "typeof VNull = ''object''"
| "typeof (VBool b) = ''boolean''"
| "typeof (VNumber n) = ''number''"
| "typeof (VString s) = ''string''"
| "typeof (VObject r) = ''object''"
| "typeof (VFunction f) = ''function''"

type_synonym object = "string \<rightharpoonup> jsval"

text \<open>
  \<^verbatim>\<open>extractAttrs\<close>: the loop visits every key of \<open>src\<close> and copies the property when its
  value is not a function.
\<close>

definition extractAttrs :: "object \<Rightarrow> object" where
  "extractAttrs src =
     (\<lambda>key. case src key of
               None \<Rightarrow> None
             | Some v \<Rightarrow> if typeof v \<noteq> ''function'' then Some v else None)"

text \<open>
  What the constructor reads and writes: the heap with the next free reference, the post
  registry \<^verbatim>\<open>posts\<close> (from id to model), the root elements attached to the document, the
  views that were unbound, and the two module variables \<^verbatim>\<open>postForm\<close> and \<^verbatim>\<open>postModel\<close>.
\<close>

record world =
  heap :: "nat \<rightharpoonup> object"
  next_ref :: nat
  posts :: "jsval \<rightharpoonup> nat"
  document :: "nat list"
  unbound :: "nat list"
  postForm :: "nat option"
  postModel :: "nat option"

text \<open>Reading a property: a \<^verbatim>\<open>TypeError\<close> on \<^verbatim>\<open>undefined\<close> and \<^verbatim>\<open>null\<close>.\<close>

definition get_prop :: "world \<Rightarrow> jsval \<Rightarrow> string \<Rightarrow> error + jsval" where
  "get_prop w v key =
     (case v of
        VUndefined \<Rightarrow> Inl TypeError
      | VNull \<Rightarrow> Inl TypeError
      | VObject r \<Rightarrow>
          (case heap w r of
             None \<Rightarrow> Inl TypeError
           | Some obj \<Rightarrow> Inr (case obj key of None \<Rightarrow> VUndefined | Some x \<Rightarrow> x))
      | _ \<Rightarrow> Inr VUndefined)"

definition set_prop :: "world \<Rightarrow> nat \<Rightarrow> string \<Rightarrow> jsval \<Rightarrow> world" where
  "set_prop w r key v =
     w\<lparr>heap := (heap w)(r \<mapsto> (case heap w r of None \<Rightarrow> [key \<mapsto> v] | Some obj \<Rightarrow> obj(key \<mapsto> v)))\<rparr>"

definition object_of :: "world \<Rightarrow> jsval \<Rightarrow> object" where
  "object_of w v =
     (case v of
        VObject r \<Rightarrow> (case heap w r of None \<Rightarrow> Map.empty | Some obj \<Rightarrow> obj)
      | _ \<Rightarrow> Map.empty)"

definition alloc :: "world \<Rightarrow> object \<Rightarrow> nat \<times> world" where
  "alloc w obj = (next_ref w, w\<lparr>heap := (heap w)(next_ref w \<mapsto> obj), next_ref := Suc (next_ref w)\<rparr>)"

text \<open>
  Modelled from the spec: the post registry of the state module is not in the source;
  section 6 gives it \<^verbatim>\<open>get(id) -> model\<close> and \<^verbatim>\<open>replace(id, newModel)\<close>. \<open>posts_get\<close> is
  \<^verbatim>\<open>posts.get(id)\<close> (\<^verbatim>\<open>undefined\<close> for an id that is not registered) and \<open>posts_addOP\<close> is
  \<^verbatim>\<open>posts.addOP(model)\<close>, which stores the model under its own \<^verbatim>\<open>id\<close>.
\<close>

definition posts_get :: "world \<Rightarrow> int \<Rightarrow> jsval" where
  "posts_get w post_id = (case posts w (VNumber post_id) of None \<Rightarrow> VUndefined | Some r \<Rightarrow> VObject r)"

definition posts_addOP :: "world \<Rightarrow> nat \<Rightarrow> world" where
  "posts_addOP w r =
     (let key = (case get_prop w (VObject r) ''id'' of Inl e \<Rightarrow> VUndefined | Inr v \<Rightarrow> v)
      in w\<lparr>posts := (posts w)(key \<mapsto> r)\<rparr>)"

text \<open>
  Modelled from the spec: \<^verbatim>\<open>unbind\<close> of the old view, the constructor of \<^verbatim>\<open>OP\<close> and the
  constructor of \<^verbatim>\<open>PostView\<close>, which the constructors of \<^verbatim>\<open>OPFormView\<close> and \<^verbatim>\<open>FormView\<close>
  reach through \<^verbatim>\<open>super(model)\<close>, are not in the source. By section 4.4, (a) the old
  view is detached from further updates, (b) the new model gets the attributes passed to
  it, and (d) the new editable view is constructed: a view with a root element of its own,
  which becomes the \<^verbatim>\<open>view\<close> of its model (\<^verbatim>\<open>FormModel\<close> calls
  \<^verbatim>\<open>this.view.terminateLine\<close>). \<^verbatim>\<open>renderInputs\<close>, which the constructor of \<^verbatim>\<open>FormView\<close>
  runs next, fills the view with its inputs and touches neither the registry nor the root
  element in the document; it is not part of \<open>new_OPFormView\<close>.
\<close>

definition view_unbind :: "world \<Rightarrow> jsval \<Rightarrow> error + world" where
  "view_unbind w v =
     (case v of
        VObject r \<Rightarrow> Inr (w\<lparr>unbound := unbound w @ [r]\<rparr>)
      | _ \<Rightarrow> Inl TypeError)"

definition OP_constructor :: "world \<Rightarrow> object \<Rightarrow> nat \<times> world" where
  "OP_constructor w attrs = alloc w attrs"

definition new_OPFormView :: "world \<Rightarrow> nat \<Rightarrow> nat \<times> world" where
  "new_OPFormView w model =
     (let (el, w1) = alloc w Map.empty;
          (view, w2) = alloc w1 [''model'' \<mapsto> VObject model, ''el'' \<mapsto> VObject el]
      in (view, set_prop w2 model ''view'' (VObject view)))"

text \<open>\<^verbatim>\<open>old.replaceWith(new)\<close> on root elements of the document.\<close>

definition el_replaceWith :: "world \<Rightarrow> jsval \<Rightarrow> jsval \<Rightarrow> error + world" where
  "el_replaceWith w old new =
     (case (old, new) of
        (VObject old_el, VObject new_el) \<Rightarrow>
          Inr (w\<lparr>document := map (\<lambda>e. if e = old_el then new_el else e) (document w)\<rparr>)
      | _ \<Rightarrow> Inl TypeError)"

text \<open>
  The constructor of \<^verbatim>\<open>OPFormModel\<close>, statement by statement. On success it returns the
  world before the call and after each statement, in order; a \<^verbatim>\<open>TypeError\<close> ends it.
\<close>

definition OPFormModel_constructor :: "world \<Rightarrow> int \<Rightarrow> error + world list" where
  "OPFormModel_constructor w post_id =
     (let oldModel = posts_get w post_id in
      case get_prop w oldModel ''view'' of Inl e \<Rightarrow> Inl e | Inr oldView \<Rightarrow>
      case view_unbind w oldView of Inl e \<Rightarrow> Inl e | Inr w1 \<Rightarrow>
      let (this, w2) = OP_constructor w1 (extractAttrs (object_of w1 oldModel));
          w3 = posts_addOP w2 this;
          (view, w4) = new_OPFormView w3 this;
          w5 = w4\<lparr>postForm := Some view\<rparr>;
          w6 = w5\<lparr>postModel := Some this\<rparr>
      in
      case get_prop w6 oldView ''el'' of Inl e \<Rightarrow> Inl e | Inr oldEl \<Rightarrow>
      case get_prop w6 (VObject view) ''el'' of Inl e \<Rightarrow> Inl e | Inr newEl \<Rightarrow>
      case el_replaceWith w6 oldEl newEl of Inl e \<Rightarrow> Inl e | Inr w7 \<Rightarrow>
      let w8 = set_prop w7 this ''parsedLines'' (VNumber 0);
          w9 = set_prop w8 this ''bodyLength'' (VNumber 0)
      in Inr [w, w1, w2, w3, w4, w5, w6, w7, w8, w9])"

section \<open>Properties\<close>

subsection \<open>String operations\<close>

lemma slice_drop_last: "0 < k \<Longrightarrow> slice_js s 0 (Some (- k)) = take (length s - nat k) s"
  by (auto simp add: slice_js_def Let_def max_def nat_diff_distrib' intro: arg_cong2[where f=take])

lemma slice_butlast: "slice_js s 0 (Some (- 1)) = butlast s"
  by (simp add: slice_drop_last butlast_conv_take)

lemma slice_last: "slice_js s (- 1) None = (if s = [] then [] else [last s])"
proof (cases s rule: rev_cases)
  case Nil then show ?thesis by (simp add: slice_js_def)
next
  case (snoc ys y)
  then show ?thesis by (simp add: slice_js_def Let_def)
qed

lemma split_nonempty: "split sep s \<noteq> []"
  by (subst split.simps) (simp split: list.splits)

lemma takeWhile_append_stop: "\<not> P x \<Longrightarrow> takeWhile P (xs @ x # ys) = takeWhile P xs"
  by (induction xs) simp_all

lemma last_split: "last (split sep s) = rev (takeWhile (\<lambda>c. c \<noteq> sep) (rev s))"
proof (induction sep s rule: split.induct)
  case (1 sep s)
  show ?case
  proof (cases "dropWhile (\<lambda>c. c \<noteq> sep) s")
    case Nil
    then have "\<forall>c\<in>set (rev s). c \<noteq> sep" by (simp add: dropWhile_eq_Nil_conv)
    then have t: "takeWhile (\<lambda>c. c \<noteq> sep) (rev s) = rev s"
      by (simp only: takeWhile_eq_all_conv)
    have sp: "split sep s = [s]" by (subst split.simps) (simp only: Nil list.case)
    show ?thesis unfolding sp t by simp
  next
    case (Cons x rest)
    have s: "s = takeWhile (\<lambda>c. c \<noteq> sep) s @ x # rest"
      using Cons takeWhile_dropWhile_id[of "\<lambda>c. c \<noteq> sep" s] by simp
    have x: "x = sep" using Cons hd_dropWhile[of "\<lambda>c. c \<noteq> sep" s] by force
    have "split sep s = takeWhile (\<lambda>c. c \<noteq> sep) s # split sep rest"
      by (subst split.simps) (simp only: Cons list.case)
    then have "last (split sep s) = last (split sep rest)"
      by (simp add: split_nonempty)
    also have "\<dots> = rev (takeWhile (\<lambda>c. c \<noteq> sep) (rev rest))" using 1 Cons by simp
    also have "\<dots> = rev (takeWhile (\<lambda>c. c \<noteq> sep) (rev s))"
    proof -
      have "rev s = rev rest @ sep # rev (takeWhile (\<lambda>c. c \<noteq> sep) s)"
        by (subst s) (simp add: x)
      then show ?thesis by (simp add: takeWhile_append_stop)
    qed
    finally show ?thesis .
  qed
qed

subsection \<open>One call of \<^verbatim>\<open>parseInput\<close>\<close>

lemma lenDiff_snoc: "lenDiff m (line m @ [c]) = 1"
  by (simp add: lenDiff_def)

lemma classify_append:
  "classify m (line m @ [c]) =
     m\<lparr>line := line m @ [c], bodyLength := bodyLength m + 1,
       sent := sent m @ [(MsgAppend, Number (uint c))]\<rparr>"
  by (simp add: classify_def lenDiff_def slice_butlast slice_last commitChar_def charCodeAt0_def)

lemma classify_backspace:
  "line m = s @ [c] \<Longrightarrow>
   classify m s =
     m\<lparr>line := s, bodyLength := bodyLength m - 1, sent := sent m @ [(MsgBackspace, Null)]\<rparr>"
  by (simp add: classify_def lenDiff_def slice_butlast commitBackspace_def)

lemma classify_irregular:
  "\<not> (lenDiff m val = 1 \<and> butlast val = line m) \<Longrightarrow>
   \<not> (lenDiff m val = - 1 \<and> butlast (line m) = val) \<Longrightarrow> classify m val = m"
  by (auto simp add: classify_def slice_butlast)

lemma parseInput_no_overflow: "exceeding m val \<le> 0 \<Longrightarrow> parseInput m val = Some (classify m val)"
  by (subst parseInput.simps) simp

lemma parseInput_overflow:
  "0 < exceeding m val \<Longrightarrow>
   parseInput m val =
     parseInput (trimInput m (exceeding m val)) (slice_js val 0 (Some (- exceeding m val)))"
  by (subst parseInput.simps) simp

lemma line_trimInput [simp]: "line (trimInput m k) = line m"
  and bodyLength_trimInput [simp]: "bodyLength (trimInput m k) = bodyLength m"
  and sent_trimInput [simp]: "sent (trimInput m k) = sent m"
  and parsedLines_trimInput [simp]: "parsedLines (trimInput m k) = parsedLines m"
  and body_trimInput [simp]: "body (trimInput m k) = body m"
  and scheduled_trimInput [simp]: "scheduled (trimInput m k) = scheduled m"
  by (simp_all add: trimInput_def)

lemma length_slice_drop_last:
  "0 < k \<Longrightarrow> int (length (slice_js s 0 (Some (- k)))) = max (int (length s) - k) 0"
  by (simp add: slice_drop_last)

lemma exceeding_after_trim:
  assumes "bodyLength m \<le> 2000" and "0 < exceeding m val"
  shows "exceeding (trimInput m (exceeding m val)) (slice_js val 0 (Some (- exceeding m val))) = 0"
proof -
  have "exceeding m val \<le> int (length val)"
    using assms by (simp add: exceeding_def lenDiff_def)
  then have "int (length (slice_js val 0 (Some (- exceeding m val)))) = int (length val) - exceeding m val"
    using assms(2) by (simp add: length_slice_drop_last)
  then show ?thesis
    by (simp add: exceeding_def lenDiff_def)
qed

lemma parseInput_bounded_sound:
  "parseInput_bounded n m val = Some r \<Longrightarrow> parseInput m val = Some r"
proof (induction n arbitrary: m val)
  case 0
  then show ?case by (simp add: parseInput_no_overflow split: if_splits)
next
  case (Suc n)
  then show ?case
    by (cases "0 < exceeding m val") (simp_all add: parseInput_no_overflow parseInput_overflow)
qed

subsection \<open>The last line of the body\<close>

text \<open>
  Claim C9. \<^verbatim>\<open>lastBodyLine\<close> returns a string on every body (never \<^verbatim>\<open>undefined\<close>,
  since \<^verbatim>\<open>split\<close> yields at least one piece). The result holds no newline; it is the
  part of the body after its final newline, and the whole body when the body has no
  newline; it is empty exactly when the body is empty or ends with a newline.
\<close>

theorem lastBodyLine_after_final_newline:
  "\<exists>r. lastBodyLine m = Some r \<and> newline \<notin> set r
     \<and> (if newline \<in> set (body m) then \<exists>pre. body m = pre @ newline # r else r = body m)
     \<and> (if body m = [] \<or> last (body m) = newline then r = [] else r \<noteq> [])"
proof -
  define r where "r = rev (takeWhile (\<lambda>c. c \<noteq> newline) (rev (body m)))"
  have "split newline (body m) ! (length (split newline (body m)) - 1) = last (split newline (body m))"
    by (rule last_conv_nth [symmetric]) (rule split_nonempty)
  then have 1: "lastBodyLine m = Some r"
    by (simp add: lastBodyLine_def Let_def split_nonempty last_split r_def)
  have 2: "newline \<notin> set r"
    unfolding r_def using set_takeWhileD [of newline "\<lambda>c. c \<noteq> newline" "rev (body m)"] by auto
  have 3: "if newline \<in> set (body m) then \<exists>pre. body m = pre @ newline # r else r = body m"
  proof (cases "newline \<in> set (body m)")
    case False
    then have "\<forall>c\<in>set (rev (body m)). c \<noteq> newline" by auto
    then have t: "takeWhile (\<lambda>c. c \<noteq> newline) (rev (body m)) = rev (body m)"
      by (simp only: takeWhile_eq_all_conv)
    have "r = body m" unfolding r_def t by simp
    with False show ?thesis by simp
  next
    case True
    then have "dropWhile (\<lambda>c. c \<noteq> newline) (rev (body m)) \<noteq> []"
      by (simp add: dropWhile_eq_Nil_conv)
    then obtain x xs where d: "dropWhile (\<lambda>c. c \<noteq> newline) (rev (body m)) = x # xs"
      by (cases "dropWhile (\<lambda>c. c \<noteq> newline) (rev (body m))") auto
    have x: "x = newline"
      using d hd_dropWhile [of "\<lambda>c. c \<noteq> newline" "rev (body m)"] by force
    have "rev (body m) = rev r @ newline # xs"
      using takeWhile_dropWhile_id [of "\<lambda>c. c \<noteq> newline" "rev (body m)"] d x
      by (simp add: r_def)
    then have "body m = rev xs @ newline # r"
      by (simp add: rev_swap)
    with True show ?thesis by auto
  qed
  have 4: "if body m = [] \<or> last (body m) = newline then r = [] else r \<noteq> []"
  proof (cases "body m" rule: rev_cases)
    case Nil
    then show ?thesis by (simp add: r_def)
  next
    case (snoc ys y)
    then show ?thesis by (simp add: r_def)
  qed
  from 1 2 3 4 show ?thesis by blast
qed

subsection \<open>Irregular edits\<close>

text \<open>
  Claim C5. When the excess computed at the head of \<^verbatim>\<open>parseInput\<close> is not positive and
  the change is not a single trailing append or removal (the length difference is neither
  \<open>1\<close> nor \<open>- 1\<close>, or it is and the shorter string is not the longer one without its last
  character), \<^verbatim>\<open>parseInput\<close> returns with the whole state as it was: no command is
  sent, and the committed line and the body length are unchanged.
\<close>

theorem parseInput_irregular_unchanged:
  assumes "exceeding m val \<le> 0"
    and "(lenDiff m val \<noteq> 1 \<and> lenDiff m val \<noteq> - 1)
         \<or> (lenDiff m val = 1 \<and> butlast val \<noteq> line m)
         \<or> (lenDiff m val = - 1 \<and> butlast (line m) \<noteq> val)"
  shows "parseInput m val = Some m"
proof -
  have "classify m val = m"
    using assms(2) by (intro classify_irregular) auto
  with assms(1) show ?thesis by (simp add: parseInput_no_overflow)
qed

theorem parseInput_irregular_unchanged_witness:
  "exceeding \<lparr>body = [], line = [], bodyLength = 0, parsedLines = 0, input_value = [120, 121, 122],
       sent = [], scheduled = []\<rparr> [120, 121, 122] = - 1997
   \<and> lenDiff \<lparr>body = [], line = [], bodyLength = 0, parsedLines = 0, input_value = [120, 121, 122],
       sent = [], scheduled = []\<rparr> [120, 121, 122] = 3
   \<and> parseInput \<lparr>body = [], line = [], bodyLength = 0, parsedLines = 0, input_value = [120, 121, 122],
       sent = [], scheduled = []\<rparr> [120, 121, 122]
     = Some \<lparr>body = [], line = [], bodyLength = 0, parsedLines = 0, input_value = [120, 121, 122],
       sent = [], scheduled = []\<rparr>"
  using parseInput_irregular_unchanged [of "\<lparr>body = [], line = [], bodyLength = 0, parsedLines = 0,
       input_value = [120, 121, 122], sent = [], scheduled = []\<rparr>" "[120, 121, 122]"]
  by (simp add: exceeding_def lenDiff_def)

subsection \<open>A typed newline\<close>

text \<open>
  Claim C10. A newline typed at the end of the committed line, with room for one more
  character (\<open>bodyLength + 1 \<le> 2000\<close>), takes the ordinary append path:
  \<^verbatim>\<open>parseInput\<close> applies \<^verbatim>\<open>commitChar\<close> to it, which puts the newline at the end of the
  committed line, adds one to the body length and sends an append command with the code
  10.
\<close>

theorem parseInput_newline_is_ordinary_append:
  assumes "bodyLength m + 1 \<le> 2000"
  shows "parseInput m (line m @ [newline]) = Some (commitChar m [newline])
     \<and> commitChar m [newline] =
         m\<lparr>line := line m @ [newline], bodyLength := bodyLength m + 1,
           sent := sent m @ [(MsgAppend, Number 10)]\<rparr>"
proof -
  have "exceeding m (line m @ [newline]) \<le> 0"
    using assms by (simp add: exceeding_def lenDiff_def)
  then have "parseInput m (line m @ [newline]) = Some (classify m (line m @ [newline]))"
    by (rule parseInput_no_overflow)
  moreover have "classify m (line m @ [newline]) = commitChar m [newline]"
    by (simp add: classify_def lenDiff_def slice_butlast slice_last)
  moreover have "commitChar m [newline] =
         m\<lparr>line := line m @ [newline], bodyLength := bodyLength m + 1,
           sent := sent m @ [(MsgAppend, Number 10)]\<rparr>"
    by (simp add: commitChar_def charCodeAt0_def newline_def)
  ultimately show ?thesis by simp
qed

theorem parseInput_newline_is_ordinary_append_witness:
  "parseInput \<lparr>body = [], line = [97, 98], bodyLength = 2, parsedLines = 0, input_value = [97, 98, 10],
       sent = [], scheduled = []\<rparr> [97, 98, 10]
     = Some \<lparr>body = [], line = [97, 98, 10], bodyLength = 3, parsedLines = 0, input_value = [97, 98, 10],
       sent = [(MsgAppend, Number 10)], scheduled = []\<rparr>"
  using parseInput_newline_is_ordinary_append [of "\<lparr>body = [], line = [97, 98], bodyLength = 2,
       parsedLines = 0, input_value = [97, 98, 10], sent = [], scheduled = []\<rparr>"]
  by (simp add: newline_def)

subsection \<open>Truncation at the length limit\<close>



text \<open>
  Claim C8. With \<open>0 \<le> bodyLength \<le> 2000\<close>, \<^verbatim>\<open>parseInput\<close> returns on every committed
  line and every new value, and the recursion is at most one call deep: the excess
  recomputed after the truncation is not positive.
\<close>

theorem parseInput_depth_at_most_one:
  assumes "0 \<le> bodyLength m" and "bodyLength m \<le> 2000"
  shows "parseInput m val \<noteq> None
     \<and> parseInput_bounded 1 m val = parseInput m val
     \<and> (0 < exceeding m val \<longrightarrow>
          exceeding (trimInput m (exceeding m val)) (slice_js val 0 (Some (- exceeding m val))) \<le> 0)"
proof -
  have b: "parseInput_bounded 1 m val \<noteq> None"
    using assms(2) by (simp add: exceeding_after_trim)
  then obtain r where r: "parseInput_bounded 1 m val = Some r" by blast
  then have "parseInput m val = Some r" by (rule parseInput_bounded_sound)
  with r show ?thesis using assms(2) by (simp add: exceeding_after_trim)
qed

theorem parseInput_depth_at_most_one_witness:
  "parseInput \<lparr>body = [], line = [97], bodyLength = 2000, parsedLines = 0,
       input_value = [97, 120, 121, 122], sent = [], scheduled = []\<rparr> [97, 120, 121, 122]
     = Some \<lparr>body = [], line = [97], bodyLength = 2000, parsedLines = 0,
       input_value = [97], sent = [], scheduled = []\<rparr>
   \<and> parseInput_bounded 0 \<lparr>body = [], line = [97], bodyLength = 2000, parsedLines = 0,
       input_value = [97, 120, 121, 122], sent = [], scheduled = []\<rparr> [97, 120, 121, 122] = None"
  using parseInput_depth_at_most_one [of "\<lparr>body = [], line = [97], bodyLength = 2000, parsedLines = 0,
       input_value = [97, 120, 121, 122], sent = [], scheduled = []\<rparr>" "[97, 120, 121, 122]"]
  by (simp add: exceeding_def lenDiff_def trimInput_def slice_js_def classify_def)

text \<open>
  Beyond the limit the bound is needed: with \<open>bodyLength = 2001\<close> and nothing committed, the
  empty value has a positive excess again after every truncation, and the call never returns.
\<close>

lemma parseInput_beyond_limit_never_returns:
  "parseInput \<lparr>body = [], line = [], bodyLength = 2001, parsedLines = 0, input_value = [],
       sent = [], scheduled = []\<rparr> [] = None"
proof -
  let ?m = "\<lparr>body = [], line = [], bodyLength = 2001, parsedLines = 0, input_value = [],
       sent = [], scheduled = []\<rparr>"
  have e: "exceeding ?m [] = 1" by (simp add: exceeding_def lenDiff_def)
  have t: "trimInput ?m 1 = ?m" by (simp add: trimInput_def slice_js_def)
  have s: "slice_js ([] :: jsstring) 0 (Some (- 1)) = []" by (simp add: slice_js_def)
  have "m \<noteq> ?m \<or> val \<noteq> []" if "parseInput m val = Some r" for m val r
    using that
  proof (induction m val r rule: parseInput.raw_induct [rotated, consumes 1, case_names step])
    case (step parseInput m val r)
    show ?case
    proof (rule ccontr)
      assume "\<not> (m \<noteq> ?m \<or> val \<noteq> [])"
      then have m: "m = ?m" and val: "val = []" by simp_all
      from step(2) have "parseInput ?m [] = Some r"
        unfolding m val e t s by simp
      from step(1) [OF this] show False by simp
    qed
  qed
  then show ?thesis by (cases "parseInput ?m []") auto
qed

subsection \<open>Append and backspace\<close>

text \<open>
  Claim C2, as stated, says that \<^verbatim>\<open>parseInput(s + c)\<close> from the committed line \<open>s\<close> always
  commits \<open>c\<close>. At the length limit it does not: with \<open>bodyLength = 2000\<close> the overflow
  guard comes first, the input is trimmed, and nothing is committed or sent.
\<close>

theorem parseInput_append_at_limit_counterexample:
  "parseInput \<lparr>body = [], line = replicate 2000 97, bodyLength = 2000, parsedLines = 0,
       input_value = replicate 2000 97 @ [120], sent = [], scheduled = []\<rparr>
       (replicate 2000 97 @ [120])
     = Some \<lparr>body = [], line = replicate 2000 97, bodyLength = 2000, parsedLines = 0,
         input_value = replicate 2000 97, sent = [], scheduled = []\<rparr>
   \<and> parseInput \<lparr>body = [], line = replicate 2000 97, bodyLength = 2000, parsedLines = 0,
       input_value = replicate 2000 97 @ [120], sent = [], scheduled = []\<rparr>
       (replicate 2000 97 @ [120])
     \<noteq> Some (commitChar \<lparr>body = [], line = replicate 2000 97, bodyLength = 2000, parsedLines = 0,
       input_value = replicate 2000 97 @ [120], sent = [], scheduled = []\<rparr> [120])"
proof -
  let ?m = "\<lparr>body = [], line = replicate 2000 97, bodyLength = 2000, parsedLines = 0,
       input_value = replicate 2000 97 @ [120], sent = [], scheduled = []\<rparr>"
  let ?val = "replicate 2000 (97 :: code_unit) @ [120]"
  have e: "exceeding ?m ?val = 1" by (simp add: exceeding_def lenDiff_def)
  have "parseInput ?m ?val = parseInput (trimInput ?m 1) (slice_js ?val 0 (Some (- 1)))"
    using parseInput_overflow [of ?m ?val] e by simp
  also have "\<dots> = Some (classify (trimInput ?m 1) (slice_js ?val 0 (Some (- 1))))"
    by (rule parseInput_no_overflow) (simp add: exceeding_def lenDiff_def slice_butlast butlast_append)
  also have "classify (trimInput ?m 1) (slice_js ?val 0 (Some (- 1))) = trimInput ?m 1"
    by (rule classify_irregular) (simp_all add: lenDiff_def slice_butlast butlast_append)
  finally have "parseInput ?m ?val = Some (trimInput ?m 1)" .
  then show ?thesis
    by (simp add: trimInput_def slice_butlast butlast_append commitChar_def)
qed

text \<open>
  Claim C2, amended. For every committed line \<open>s\<close> and code unit \<open>c\<close>, when
  \<open>bodyLength < 2000\<close>, \<^verbatim>\<open>parseInput(s + c)\<close> applies \<^verbatim>\<open>commitChar(c)\<close>: the committed line
  becomes \<open>s + c\<close>, the body length grows by exactly one, and an append command with the
  code of \<open>c\<close> is sent. From a committed line \<open>s + c\<close> with \<open>bodyLength \<le> 2001\<close>,
  \<^verbatim>\<open>parseInput(s)\<close> applies \<^verbatim>\<open>commitBackspace\<close>: the last character is removed, the body
  length drops by exactly one, and a backspace command is sent. The backspace after the
  append restores the committed line and the body length.
\<close>

theorem parseInput_append_backspace:
  "(bodyLength m < 2000 \<longrightarrow>
      parseInput m (line m @ [c]) = Some (commitChar m [c])
    \<and> commitChar m [c] =
        m\<lparr>line := line m @ [c], bodyLength := bodyLength m + 1,
          sent := sent m @ [(MsgAppend, Number (uint c))]\<rparr>)
   \<and> (line m = s @ [c] \<and> bodyLength m \<le> 2001 \<longrightarrow>
      parseInput m s = Some (commitBackspace m)
    \<and> commitBackspace m =
        m\<lparr>line := s, bodyLength := bodyLength m - 1, sent := sent m @ [(MsgBackspace, Null)]\<rparr>)
   \<and> (bodyLength m < 2000 \<longrightarrow>
      parseInput (commitChar m [c]) (line m) = Some (commitBackspace (commitChar m [c]))
    \<and> line (commitBackspace (commitChar m [c])) = line m
    \<and> bodyLength (commitBackspace (commitChar m [c])) = bodyLength m)"
proof (intro conjI impI)
  assume b: "bodyLength m < 2000"
  show cc: "commitChar m [c] =
        m\<lparr>line := line m @ [c], bodyLength := bodyLength m + 1,
          sent := sent m @ [(MsgAppend, Number (uint c))]\<rparr>"
    by (simp add: commitChar_def charCodeAt0_def)
  have "exceeding m (line m @ [c]) \<le> 0"
    using b by (simp add: exceeding_def lenDiff_def)
  then show "parseInput m (line m @ [c]) = Some (commitChar m [c])"
    by (simp add: parseInput_no_overflow classify_append cc)
  let ?m = "commitChar m [c]"
  have l: "line ?m = line m @ [c]" by (simp add: cc)
  have "exceeding ?m (line m) \<le> 0"
    using b by (simp add: exceeding_def lenDiff_def cc)
  then have "parseInput ?m (line m) = Some (classify ?m (line m))"
    by (rule parseInput_no_overflow)
  also have "classify ?m (line m) = commitBackspace ?m"
    using classify_backspace [OF l] l by (simp add: commitBackspace_def slice_butlast)
  finally show "parseInput ?m (line m) = Some (commitBackspace ?m)" .
  show "line (commitBackspace ?m) = line m"
    by (simp add: commitBackspace_def slice_butlast l)
  show "bodyLength (commitBackspace ?m) = bodyLength m"
    by (simp add: commitBackspace_def cc)
next
  assume a: "line m = s @ [c] \<and> bodyLength m \<le> 2001"
  then have l: "line m = s @ [c]" and b: "bodyLength m \<le> 2001" by simp_all
  show cb: "commitBackspace m =
        m\<lparr>line := s, bodyLength := bodyLength m - 1, sent := sent m @ [(MsgBackspace, Null)]\<rparr>"
    by (simp add: commitBackspace_def slice_butlast l)
  have "exceeding m s \<le> 0"
    using b l by (simp add: exceeding_def lenDiff_def)
  then show "parseInput m s = Some (commitBackspace m)"
    by (simp add: parseInput_no_overflow classify_backspace [OF l] cb)
qed

theorem parseInput_append_backspace_witness:
  "parseInput \<lparr>body = [], line = [97], bodyLength = 1, parsedLines = 0, input_value = [97, 98],
       sent = [], scheduled = []\<rparr> [97, 98]
     = Some \<lparr>body = [], line = [97, 98], bodyLength = 2, parsedLines = 0, input_value = [97, 98],
         sent = [(MsgAppend, Number 98)], scheduled = []\<rparr>
   \<and> parseInput \<lparr>body = [], line = [97, 98], bodyLength = 2, parsedLines = 0, input_value = [97],
         sent = [(MsgAppend, Number 98)], scheduled = []\<rparr> [97]
     = Some \<lparr>body = [], line = [97], bodyLength = 1, parsedLines = 0, input_value = [97],
         sent = [(MsgAppend, Number 98), (MsgBackspace, Null)], scheduled = []\<rparr>"
  using parseInput_append_backspace [of "\<lparr>body = [], line = [97], bodyLength = 1, parsedLines = 0,
       input_value = [97, 98], sent = [], scheduled = []\<rparr>" 98 "[]"]
    parseInput_append_backspace [of "\<lparr>body = [], line = [97, 98], bodyLength = 2, parsedLines = 0,
       input_value = [97], sent = [(MsgAppend, Number 98)], scheduled = []\<rparr>" 98 "[97]"]
  by (simp add: commitChar_def commitBackspace_def)

subsection \<open>The body length stays within the limit\<close>








subsection \<open>Line termination\<close>

lemma query_span_nth_child_nonpositive:
  "num \<le> 0 \<Longrightarrow> query_span_nth_child num i es = None"
  by (induction num i es rule: query_span_nth_child.induct) auto

lemma lastBodyLine_parsedLines [simp]:
  "lastBodyLine (m\<lparr>parsedLines := n\<rparr>) = lastBodyLine m"
  by (simp add: lastBodyLine_def)

text \<open>The lookup counts children from one: the number 1 finds a first child that is a \<^verbatim>\<open>span\<close>.\<close>

lemma run_scheduled_first_child:
  "run_scheduled (Element ''blockquote'' [Element ''span'' [], Element ''textarea'' []])
     (1, [Element ''em'' []])
   = Inr (Element ''blockquote'' [Element ''em'' [], Element ''textarea'' []])"
  by (simp add: run_scheduled_def)

text \<open>
  Claim C4. A newline appended at \<open>parsedLines = 0\<close> terminates the line: the counter becomes
  1, the value before the increment, 0, is the number handed to \<^verbatim>\<open>terminateLine\<close>, and the
  parser is called with the last line of the body as it stood before the newline joined it.
  The lookup that \<^verbatim>\<open>terminateLine\<close> schedules for the number 0 is
  \<^verbatim>\<open>span:nth-child(0)\<close>; children are counted from one, so it finds no element in any
  blockquote, and the replacement fails with a \<^verbatim>\<open>TypeError\<close> instead of putting the parsed
  line in place.
\<close>

theorem append_newline_placeholder_not_found:
  "append_code env (m\<lparr>parsedLines := 0\<rparr>) 10 =
     m\<lparr>parsedLines := 1,
       scheduled := scheduled m @
         [(0, makeFrag env (parseTerminatedLine env (lastBodyLine m) (m\<lparr>parsedLines := 1\<rparr>)))],
       body := body m @ [newline]\<rparr>
   \<and> run_scheduled blockquote (0, frag) = Inl TypeError"
  by (simp add: append_code_def fromCharCode_def newline_def terminateLine_def Let_def
      run_scheduled_def query_span_nth_child_nonpositive)

subsection \<open>The constructor of the form model\<close>

lemma extractAttrs_Some:
  "extractAttrs src key = Some v \<longleftrightarrow> src key = Some v \<and> typeof v \<noteq> ''function''"
  by (auto simp add: extractAttrs_def split: option.splits)

lemma OPFormModel_constructor_trace:
  assumes reg: "posts w (VNumber post_id) = Some old"
    and om: "heap w old = Some om"
    and view: "om ''view'' = Some (VObject ov)"
    and vo: "heap w ov = Some vo"
    and el: "vo ''el'' = Some (VObject oe)"
    and wf: "\<forall>r\<in>dom (heap w). r < next_ref w"
  defines "this \<equiv> next_ref w"
  defines "w1 \<equiv> w\<lparr>unbound := unbound w @ [ov]\<rparr>"
  defines "w2 \<equiv> w1\<lparr>heap := (heap w1)(this \<mapsto> extractAttrs om), next_ref := Suc this\<rparr>"
  defines "w3 \<equiv> w2\<lparr>posts := (posts w2)((case om ''id'' of None \<Rightarrow> VUndefined
                 | Some v \<Rightarrow> if typeof v \<noteq> ''function'' then v else VUndefined) \<mapsto> this)\<rparr>"
  defines "w4 \<equiv> w3\<lparr>heap := (heap w3)
                 (Suc this \<mapsto> Map.empty,
                  Suc (Suc this) \<mapsto> [''model'' \<mapsto> VObject this, ''el'' \<mapsto> VObject (Suc this)],
                  this \<mapsto> (extractAttrs om)(''view'' \<mapsto> VObject (Suc (Suc this)))),
               next_ref := Suc (Suc (Suc this))\<rparr>"
  defines "w5 \<equiv> w4\<lparr>postForm := Some (Suc (Suc this))\<rparr>"
  defines "w6 \<equiv> w5\<lparr>postModel := Some this\<rparr>"
  defines "w7 \<equiv> w6\<lparr>document := map (\<lambda>e. if e = oe then Suc this else e) (document w6)\<rparr>"
  defines "w8 \<equiv> set_prop w7 this ''parsedLines'' (VNumber 0)"
  defines "w9 \<equiv> set_prop w8 this ''bodyLength'' (VNumber 0)"
  shows "OPFormModel_constructor w post_id = Inr [w, w1, w2, w3, w4, w5, w6, w7, w8, w9]"
proof -
  have old: "old < this" and ov: "ov < this"
    using wf om vo by (auto simp add: this_def)
  have g1: "get_prop w (posts_get w post_id) ''view'' = Inr (VObject ov)"
    by (simp add: get_prop_def posts_get_def reg om view)
  have u: "view_unbind w (VObject ov) = Inr w1"
    by (simp add: view_unbind_def w1_def)
  have o: "object_of w1 (posts_get w post_id) = om"
    by (simp add: object_of_def posts_get_def reg om w1_def)
  have c: "OP_constructor w1 (extractAttrs om) = (this, w2)"
    by (simp add: OP_constructor_def alloc_def w2_def w1_def this_def)
  have a: "posts_addOP w2 this = w3"
    by (simp add: posts_addOP_def get_prop_def w2_def w3_def Let_def extractAttrs_def
        split: option.splits)
  have v: "new_OPFormView w3 this = (Suc (Suc this), w4)"
    by (simp add: new_OPFormView_def alloc_def set_prop_def w4_def w3_def w2_def Let_def)
  have g2: "get_prop w6 (VObject ov) ''el'' = Inr (VObject oe)"
    using ov by (simp add: get_prop_def w6_def w5_def w4_def w3_def w2_def w1_def vo el)
  have g3: "get_prop w6 (VObject (Suc (Suc this))) ''el'' = Inr (VObject (Suc this))"
    by (simp add: get_prop_def w6_def w5_def w4_def)
  have r: "el_replaceWith w6 (VObject oe) (VObject (Suc this)) = Inr w7"
    by (simp add: el_replaceWith_def w7_def)
  show ?thesis
    unfolding OPFormModel_constructor_def Let_def g1 sum.case u o c prod.case a v
    unfolding w5_def [symmetric]
    unfolding w6_def [symmetric] g2 g3 sum.case r
    by (simp add: w8_def w9_def)
qed

lemma get_prop_set_prop_same:
  "get_prop (set_prop w r key v) (VObject r) key = Inr v"
  by (simp add: get_prop_def set_prop_def split: option.splits)

lemma get_prop_set_prop_other:
  "key' \<noteq> key \<Longrightarrow>
   get_prop (set_prop (set_prop w r key' v') r key v) (VObject r) key' = Inr v'"
  by (simp add: get_prop_def set_prop_def split: option.splits)

lemma view_unbind_next_ref: "view_unbind w v = Inr w1 \<Longrightarrow> next_ref w1 = next_ref w"
  by (auto simp add: view_unbind_def split: jsval.splits)

lemma OPFormModel_constructor_counters:
  assumes "OPFormModel_constructor w post_id = Inr tr"
  shows "get_prop (last tr) (VObject (next_ref w)) ''parsedLines'' = Inr (VNumber 0)
     \<and> get_prop (last tr) (VObject (next_ref w)) ''bodyLength'' = Inr (VNumber 0)"
proof -
  from assms obtain oldView w1 where u: "view_unbind w oldView = Inr w1"
    and rest: "(let (this, w2) = OP_constructor w1 (extractAttrs (object_of w1 (posts_get w post_id)));
          w3 = posts_addOP w2 this;
          (view, w4) = new_OPFormView w3 this;
          w5 = w4\<lparr>postForm := Some view\<rparr>;
          w6 = w5\<lparr>postModel := Some this\<rparr>
      in
      case get_prop w6 oldView ''el'' of Inl e \<Rightarrow> Inl e | Inr oldEl \<Rightarrow>
      case get_prop w6 (VObject view) ''el'' of Inl e \<Rightarrow> Inl e | Inr newEl \<Rightarrow>
      case el_replaceWith w6 oldEl newEl of Inl e \<Rightarrow> Inl e | Inr w7 \<Rightarrow>
      let w8 = set_prop w7 this ''parsedLines'' (VNumber 0);
          w9 = set_prop w8 this ''bodyLength'' (VNumber 0)
      in Inr [w, w1, w2, w3, w4, w5, w6, w7, w8, w9]) = Inr tr"
    by (auto simp add: OPFormModel_constructor_def Let_def split: sum.splits)
  have n: "next_ref w1 = next_ref w" using u by (rule view_unbind_next_ref)
  from rest obtain w7 where
    "last tr = set_prop (set_prop w7 (next_ref w) ''parsedLines'' (VNumber 0)) (next_ref w)
       ''bodyLength'' (VNumber 0)"
    by (auto simp add: Let_def OP_constructor_def alloc_def n split: sum.splits prod.splits)
  then show ?thesis
    by (simp add: get_prop_set_prop_same get_prop_set_prop_other)
qed

subsection \<open>The count of parsed lines\<close>

lemma parseInput_parsedLines:
  "parseInput m val = Some m' \<Longrightarrow> parsedLines m' = parsedLines m"
proof (induction m val m' rule: parseInput.raw_induct [rotated, consumes 1, case_names step])
  case (step parseInput m val r)
  show ?case
  proof (cases "0 < exceeding m val")
    case True
    with step show ?thesis by simp
  next
    case False
    with step have "r = classify m val" by simp
    then show ?thesis
      by (simp add: classify_def commitChar_def commitBackspace_def)
  qed
qed

lemma apply_operation_parsedLines:
  assumes "\<forall>m line msg. parsedLines (fst (spliceLine env m line msg)) = parsedLines m"
    and "apply_operation env m op = Some m'"
  shows "parsedLines m' = (if terminates_line op then parsedLines m + 1 else parsedLines m)"
proof (cases op)
  case (Append code)
  with assms(2) show ?thesis
    by (auto simp add: append_code_def terminateLine_def Let_def)
next
  case Backspace
  with assms(2) show ?thesis by (auto simp add: backspace_def)
next
  case (Splice msg)
  with assms show ?thesis by (auto simp add: splice_msg_def)
next
  case (ParseInput val)
  with assms(2) show ?thesis by (simp add: parseInput_parsedLines)
next
  case (CommitChar char)
  with assms(2) show ?thesis by (auto simp add: commitChar_def)
next
  case CommitBackspace
  with assms(2) show ?thesis by (auto simp add: commitBackspace_def)
qed

lemma run_operations_parsedLines:
  assumes "\<forall>m line msg. parsedLines (fst (spliceLine env m line msg)) = parsedLines m"
    and "run_operations env m ops = Some m'"
  shows "parsedLines m' = parsedLines m + int (length (filter terminates_line ops))"
  using assms(2)
proof (induction ops arbitrary: m)
  case Nil
  then show ?case by simp
next
  case (Cons op ops)
  then obtain m1 where m1: "apply_operation env m op = Some m1" "run_operations env m1 ops = Some m'"
    by (auto split: option.splits)
  from apply_operation_parsedLines [OF assms(1) m1(1)] Cons.IH [OF m1(2)]
  show ?case by simp
qed

text \<open>
  Claim C6. The constructor leaves \<open>parsedLines\<close> at 0. Over any run of the operations of the
  engine (\<^verbatim>\<open>append\<close>, \<^verbatim>\<open>backspace\<close>, \<^verbatim>\<open>splice\<close>, \<^verbatim>\<open>parseInput\<close>, \<^verbatim>\<open>commitChar\<close>,
  \<^verbatim>\<open>commitBackspace\<close>), \<open>parsedLines\<close> grows by exactly the number of \<^verbatim>\<open>append\<close> calls whose
  character is the newline: each of them adds one, and no other operation changes it
  (\<^verbatim>\<open>spliceLine\<close>, which the source only declares, is taken not to touch the counter).
\<close>

theorem parsedLines_counts_terminated_lines:
  "(OPFormModel_constructor w post_id = Inr tr \<longrightarrow>
      get_prop (last tr) (VObject (next_ref w)) ''parsedLines'' = Inr (VNumber 0))
   \<and> ((\<forall>m line msg. parsedLines (fst (spliceLine env m line msg)) = parsedLines m)
        \<and> run_operations env m ops = Some m' \<longrightarrow>
      parsedLines m' = parsedLines m + int (length (filter terminates_line ops)))"
  using OPFormModel_constructor_counters [of w post_id tr] run_operations_parsedLines [of env m ops m']
  by blast

theorem parsedLines_counts_terminated_lines_witness:
  "(\<exists>tr. OPFormModel_constructor
       \<lparr>heap = [0 \<mapsto> [''id'' \<mapsto> VNumber 7, ''view'' \<mapsto> VObject 1],
                1 \<mapsto> [''el'' \<mapsto> VObject 2], 2 \<mapsto> Map.empty],
         next_ref = 3, posts = [VNumber 7 \<mapsto> 0], document = [2], unbound = [],
         postForm = None, postModel = None\<rparr> 7 = Inr tr
      \<and> get_prop (last tr) (VObject 3) ''parsedLines'' = Inr (VNumber 0))
   \<and> (\<exists>m'. run_operations
         \<lparr>parseTerminatedLine = (\<lambda>l m. case l of None \<Rightarrow> [] | Some s \<Rightarrow> s),
           makeFrag = (\<lambda>html. [Element ''span'' []]),
           spliceLine = (\<lambda>m l msg. (m\<lparr>body := body m @ msg\<rparr>, msg))\<rparr>
         \<lparr>body = [], line = [], bodyLength = 0, parsedLines = 0, input_value = [],
           sent = [], scheduled = []\<rparr>
         [Append 97, Append 10, ParseInput [120], Backspace, Splice [98], Append 10,
          CommitChar [121], CommitBackspace] = Some m'
      \<and> parsedLines m' = 2)"
proof -
  let ?w = "\<lparr>heap = [0 \<mapsto> [''id'' \<mapsto> VNumber 7, ''view'' \<mapsto> VObject 1],
                1 \<mapsto> [''el'' \<mapsto> VObject 2], 2 \<mapsto> Map.empty],
         next_ref = 3, posts = [VNumber 7 \<mapsto> 0], document = [2], unbound = [],
         postForm = None, postModel = None\<rparr>"
  let ?env = "\<lparr>parseTerminatedLine = (\<lambda>l m. case l of None \<Rightarrow> [] | Some s \<Rightarrow> s),
           makeFrag = (\<lambda>html. [Element ''span'' []]),
           spliceLine = (\<lambda>m l msg. (m\<lparr>body := body m @ msg\<rparr>, msg))\<rparr>"
  let ?m = "\<lparr>body = [], line = [], bodyLength = 0, parsedLines = 0, input_value = [],
           sent = [], scheduled = []\<rparr>"
  let ?ops = "[Append 97, Append 10, ParseInput [120], Backspace, Splice [98], Append 10,
          CommitChar [121], CommitBackspace]"
  have "\<exists>tr. OPFormModel_constructor ?w 7 = Inr tr"
    by (rule exI, rule OPFormModel_constructor_trace [where old = 0
          and om = "[''id'' \<mapsto> VNumber 7, ''view'' \<mapsto> VObject 1]" and ov = 1
          and vo = "[''el'' \<mapsto> VObject 2]" and oe = 2]) simp_all
  then obtain tr where tr: "OPFormModel_constructor ?w 7 = Inr tr" ..
  have "\<exists>m'. run_operations ?env ?m ?ops = Some m'"
    by (simp add: append_code_def terminateLine_def fromCharCode_def newline_def Let_def
        backspace_def splice_msg_def commitChar_def commitBackspace_def
        parseInput_no_overflow exceeding_def lenDiff_def)
  then obtain m' where m': "run_operations ?env ?m ?ops = Some m'" ..
  have s: "\<forall>m line msg. parsedLines (fst (spliceLine ?env m line msg)) = parsedLines m"
    by simp
  from parsedLines_counts_terminated_lines [of ?w 7 tr ?env ?m ?ops m'] tr m' s
  have "get_prop (last tr) (VObject 3) ''parsedLines'' = Inr (VNumber 0)"
    and "parsedLines m' = 2"
    by (simp_all add: fromCharCode_def newline_def)
  with tr m' show ?thesis by blast
qed

subsection \<open>The swap of the displayed post for the form\<close>

text \<open>
  Claim C7. Let the registry hold, under \<open>post_id\<close>, a model with that id whose view has a
  root element, in a heap whose references all lie below the next free one. Then the
  constructor of \<^verbatim>\<open>OPFormModel\<close> succeeds, and along its statements: the new model is a
  new object that received exactly the attributes of the old model that are not functions;
  it is stored in the registry under the same id; a lookup of the id gives the old model
  in the states up to the construction of the new model and the new model in every state
  from its registration on, never nothing and never the old model again; the other entries of the
  registry are as before; and in the end the root element of the new view stands in the
  document wherever the root element of the old view stood.
\<close>

theorem display_to_composing_swap:
  assumes reg: "posts w (VNumber post_id) = Some old"
    and om: "heap w old = Some om"
    and id: "om ''id'' = Some (VNumber post_id)"
    and view: "om ''view'' = Some (VObject ov)"
    and vo: "heap w ov = Some vo"
    and el: "vo ''el'' = Some (VObject oe)"
    and eo: "heap w oe = Some eo"
    and wf: "\<forall>r\<in>dom (heap w). r < next_ref w"
  shows "\<exists>tr new_el. OPFormModel_constructor w post_id = Inr tr \<and> length tr = 10
     \<and> (\<forall>w'\<in>set (take 3 tr). posts w' (VNumber post_id) = Some old)
     \<and> (\<forall>w'\<in>set (drop 3 tr). posts w' (VNumber post_id) = Some (next_ref w))
     \<and> next_ref w \<noteq> old \<and> heap w (next_ref w) = None
     \<and> heap (tr ! 2) (next_ref w) = Some (extractAttrs om)
     \<and> (\<forall>key v. extractAttrs om key = Some v \<longleftrightarrow> om key = Some v \<and> typeof v \<noteq> ''function'')
     \<and> (\<forall>k. k \<noteq> VNumber post_id \<longrightarrow> posts (last tr) k = posts w k)
     \<and> (case postForm (last tr) of
           None \<Rightarrow> False
         | Some v \<Rightarrow> get_prop (last tr) (VObject v) ''el'' = Inr (VObject new_el))
     \<and> new_el \<noteq> oe
     \<and> document (last tr) = map (\<lambda>e. if e = oe then new_el else e) (document w)"
proof -
  let ?new = "next_ref w"
  have old: "old < ?new" and ov: "ov < ?new" and oe: "oe < ?new"
    using wf om vo eo by auto
  have fresh: "heap w ?new = None"
    using wf by (cases "heap w ?new") auto
  have key: "(case om ''id'' of None \<Rightarrow> VUndefined
                 | Some v \<Rightarrow> if typeof v \<noteq> ''function'' then v else VUndefined) = VNumber post_id"
    by (simp add: id)
  note tr = OPFormModel_constructor_trace [OF reg om view vo el wf, unfolded key]
  show ?thesis
    apply (rule exI, rule exI [of _ "Suc ?new"], rule conjI, rule tr)
    using old ov oe fresh reg
    apply (simp add: set_prop_def get_prop_def extractAttrs_Some)
    done
qed

theorem display_to_composing_swap_witness:
  "\<exists>tr new_el. OPFormModel_constructor
       \<lparr>heap = [0 \<mapsto> [''id'' \<mapsto> VNumber 7, ''view'' \<mapsto> VObject 1, ''subject'' \<mapsto> VString ''hi'',
                         ''remove'' \<mapsto> VFunction 0],
                1 \<mapsto> [''el'' \<mapsto> VObject 2, ''model'' \<mapsto> VObject 0],
                2 \<mapsto> Map.empty],
         next_ref = 3, posts = [VNumber 7 \<mapsto> 0], document = [2], unbound = [],
         postForm = None, postModel = None\<rparr> 7 = Inr tr
     \<and> length tr = 10
     \<and> map (\<lambda>w'. posts w' (VNumber 7)) tr
         = [Some 0, Some 0, Some 0, Some 3, Some 3, Some 3, Some 3, Some 3, Some 3, Some 3]
     \<and> document (last tr) = [new_el] \<and> new_el \<noteq> 2"
proof -
  let ?om = "[''id'' \<mapsto> VNumber 7, ''view'' \<mapsto> VObject 1, ''subject'' \<mapsto> VString ''hi'',
               ''remove'' \<mapsto> VFunction 0]"
  let ?vo = "[''el'' \<mapsto> VObject 2, ''model'' \<mapsto> VObject 0]"
  let ?w = "\<lparr>heap = [0 \<mapsto> ?om, 1 \<mapsto> ?vo, 2 \<mapsto> Map.empty],
         next_ref = 3, posts = [VNumber 7 \<mapsto> 0], document = [2], unbound = [],
         postForm = None, postModel = None\<rparr>"
  have "\<exists>tr new_el. OPFormModel_constructor ?w 7 = Inr tr \<and> length tr = 10
     \<and> (\<forall>w'\<in>set (take 3 tr). posts w' (VNumber 7) = Some 0)
     \<and> (\<forall>w'\<in>set (drop 3 tr). posts w' (VNumber 7) = Some (next_ref ?w))
     \<and> next_ref ?w \<noteq> 0 \<and> heap ?w (next_ref ?w) = None
     \<and> heap (tr ! 2) (next_ref ?w) = Some (extractAttrs ?om)
     \<and> (\<forall>key v. extractAttrs ?om key = Some v \<longleftrightarrow> ?om key = Some v \<and> typeof v \<noteq> ''function'')
     \<and> (\<forall>k. k \<noteq> VNumber 7 \<longrightarrow> posts (last tr) k = posts ?w k)
     \<and> (case postForm (last tr) of
           None \<Rightarrow> False
         | Some v \<Rightarrow> get_prop (last tr) (VObject v) ''el'' = Inr (VObject new_el))
     \<and> new_el \<noteq> 2
     \<and> document (last tr) = map (\<lambda>e. if e = 2 then new_el else e) (document ?w)"
    by (rule display_to_composing_swap [where old = 0 and om = ?om and ov = 1 and vo = ?vo
          and eo = Map.empty]) simp_all
  then obtain tr new_el where tr: "OPFormModel_constructor ?w 7 = Inr tr" "length tr = 10"
    "\<forall>w'\<in>set (take 3 tr). posts w' (VNumber 7) = Some 0"
    "\<forall>w'\<in>set (drop 3 tr). posts w' (VNumber 7) = Some 3"
    "document (last tr) = [new_el]" "new_el \<noteq> 2"
    by auto
  let ?f = "\<lambda>w'. posts w' (VNumber 7)"
  have "map ?f (take 3 tr) = map (\<lambda>w'. Some 0) (take 3 tr)"
    using tr(3) by (intro map_cong) auto
  then have a: "map ?f (take 3 tr) = [Some 0, Some 0, Some 0]"
    using tr(2) by (simp add: map_replicate_const numeral_3_eq_3)
  have "map ?f (drop 3 tr) = map (\<lambda>w'. Some 3) (drop 3 tr)"
    using tr(4) by (intro map_cong) auto
  then have b: "map ?f (drop 3 tr) = [Some 3, Some 3, Some 3, Some 3, Some 3, Some 3, Some 3]"
    using tr(2) by (simp add: map_replicate_const eval_nat_numeral)
  have "map ?f tr = map ?f (take 3 tr) @ map ?f (drop 3 tr)"
    by (simp add: map_append [symmetric] del: map_append)
  with a b have m: "map ?f tr
      = [Some 0, Some 0, Some 0, Some 3, Some 3, Some 3, Some 3, Some 3, Some 3, Some 3]"
    by simp
  show ?thesis
    by (rule exI [of _ tr], rule exI [of _ new_el]) (intro conjI tr(1,2,5,6) m)
qed

end
